theory Spec2Isabelle
  imports Main "HOL-Library.Char_ord"
begin

section \<open>Distribution bases of craft-platforms (\<^verbatim>\<open>craft_platforms/_distro.py\<close>)\<close>

text \<open>
  A Python \<^verbatim>\<open>str\<close> is a \<^typ>\<open>string\<close>; a \<^typ>\<open>char\<close> stands for the code point
  of the same number, so the model covers the strings whose code points are below 256.
  The order of \<^typ>\<open>char\<close> is the order of the code points, which is how Python
  compares characters.  A Python exception is a value of the type \<open>error\<close> below, and
  a function that can raise returns \<open>error + 'a\<close>, with \<open>Inl\<close> for the exception.
\<close>

subsection \<open>The built-in string operations the module calls\<close>

datatype error = ValueError string | TypeError | IndexError

text \<open>\<^verbatim>\<open>s.split(sep)\<close> for a separator of one character: the pieces between the separators.\<close>

fun split_on :: "char \<Rightarrow> string \<Rightarrow> string list" where
  "split_on sep [] = [[]]"
| "split_on sep (c # cs) =
     (let r = split_on sep cs in if c = sep then [] # r else (c # hd r) # tl r)"

text \<open>\<^verbatim>\<open>sep.join(parts)\<close>.\<close>

fun join :: "string \<Rightarrow> string list \<Rightarrow> string" where
  "join sep [] = []"
| "join sep [p] = p"
| "join sep (p # q # ps) = p @ sep @ join sep (q # ps)"

text \<open>
  \<^verbatim>\<open>int(s)\<close> on a string, in base ten: white space around the literal is skipped, one sign
  may come first, then digits, with single underscores allowed between two digits.
  The white space of \<^verbatim>\<open>int\<close> is the characters 9 to 13, 32, 133 and 160.  Anything
  else raises \<^verbatim>\<open>ValueError\<close>, which is \<open>None\<close> here (the only caller suppresses it).
  A literal of more than 4300 digits raises \<^verbatim>\<open>ValueError\<close> too: this is the
  interpreter's limit \<^verbatim>\<open>sys.get_int_max_str_digits()\<close> at its default value, which
  counts the digits of the literal, leading zeros included, and neither the sign, the
  underscores nor the white space.
\<close>

definition int_max_str_digits :: nat where
  "int_max_str_digits = 4300"

definition int_space :: "char \<Rightarrow> bool" where
  "int_space c \<longleftrightarrow> c \<in> {CHR 0x09, CHR 0x0A, CHR 0x0B, CHR 0x0C, CHR 0x0D, CHR 0x20, CHR 0x85, CHR 0xA0}"

definition is_digit :: "char \<Rightarrow> bool" where
  "is_digit c \<longleftrightarrow> CHR ''0'' \<le> c \<and> c \<le> CHR ''9''"

definition digit_val :: "char \<Rightarrow> int" where
  "digit_val c = of_char c - 48"

fun py_digits :: "int \<Rightarrow> string \<Rightarrow> int option" where
  "py_digits acc [] = Some acc"
| "py_digits acc (c # cs) =
     (if is_digit c then py_digits (10 * acc + digit_val c) cs
      else if c = CHR ''_'' then
        (case cs of
           [] \<Rightarrow> None
         | d # ds \<Rightarrow> if is_digit d then py_digits (10 * acc + digit_val d) ds else None)
      else None)"

definition py_literal :: "string \<Rightarrow> int option" where
  "py_literal s =
     (case s of
        [] \<Rightarrow> None
      | c # cs \<Rightarrow>
          if int_max_str_digits < length (filter is_digit s) then None
          else if is_digit c then py_digits (digit_val c) cs
          else None)"

definition rstrip :: "string \<Rightarrow> string" where
  "rstrip s = rev (dropWhile int_space (rev s))"

definition py_int :: "string \<Rightarrow> int option" where
  "py_int s =
     (case dropWhile int_space s of
        [] \<Rightarrow> None
      | c # cs \<Rightarrow>
          if c = CHR ''+'' then py_literal (rstrip cs)
          else if c = CHR ''-'' then map_option uminus (py_literal (rstrip cs))
          else py_literal (rstrip (c # cs)))"

text \<open>Python compares strings by code points, a proper prefix being the smaller one.\<close>

fun str_lt :: "string \<Rightarrow> string \<Rightarrow> bool" where
  "str_lt [] [] = False"
| "str_lt [] (y # ys) = True"
| "str_lt (x # xs) [] = False"
| "str_lt (x # xs) (y # ys) = (if x = y then str_lt xs ys else x < y)"

text \<open>
  \<^verbatim>\<open>s.split()\<close> without a separator: the maximal runs of characters that are not white
  space.  The white space of \<^verbatim>\<open>str.split\<close> is the characters 9 to 13, 28 to 32,
  133 and 160.
\<close>

definition is_space :: "char \<Rightarrow> bool" where
  "is_space c \<longleftrightarrow>
     (CHR 0x09 \<le> c \<and> c \<le> CHR 0x0D) \<or> (CHR 0x1C \<le> c \<and> c \<le> CHR 0x20)
     \<or> c = CHR 0x85 \<or> c = CHR 0xA0"

function split_ws :: "string \<Rightarrow> string list" where
  "split_ws s =
     (case dropWhile is_space s of
        [] \<Rightarrow> []
      | c # cs \<Rightarrow>
          (c # takeWhile (\<lambda>x. \<not> is_space x) cs) # split_ws (dropWhile (\<lambda>x. \<not> is_space x) cs))"
  by pat_completeness auto
termination
proof (relation "measure length")
  show "wf (measure length)" by simp
next
  fix s :: string and c cs
  assume d: "dropWhile is_space s = c # cs"
  have "length (dropWhile (\<lambda>x. \<not> is_space x) cs) \<le> length cs"
    by (rule length_dropWhile_le)
  moreover have "length (c # cs) \<le> length s"
    using length_dropWhile_le [of is_space s] by (simp add: d)
  ultimately show "(dropWhile (\<lambda>x. \<not> is_space x) cs, s) \<in> measure length"
    by simp
qed

declare split_ws.simps [simp del]

text \<open>
  \<^verbatim>\<open>s.partition(sep)\<close> for a separator of one character: the text before its first
  occurrence, the separator and the text after it, or \<open>s\<close> and two empty strings.
\<close>

fun partition_on :: "char \<Rightarrow> string \<Rightarrow> string \<times> string \<times> string" where
  "partition_on sep [] = ([], [], [])"
| "partition_on sep (c # cs) =
     (if c = sep then ([], [sep], cs)
      else (case partition_on sep cs of (before, found, after) \<Rightarrow> (c # before, found, after)))"

text \<open>
  \<^verbatim>\<open>repr(s)\<close> of a string, which \<^verbatim>\<open>{base_str!r}\<close> puts into a message: the string
  in single quotes, or in double quotes when it holds a single quote and no double
  quote; the quote in use and the backslash are escaped by a backslash, tab, newline and
  carriage return are written \<^verbatim>\<open>\t\<close>, \<^verbatim>\<open>\n\<close> and \<^verbatim>\<open>\r\<close>, and any other
  character that is not printable is written \<^verbatim>\<open>\xNN\<close>.
\<close>

definition printable :: "char \<Rightarrow> bool" where
  "printable c \<longleftrightarrow>
     (CHR 0x20 \<le> c \<and> c \<le> CHR 0x7E) \<or> (CHR 0xA1 \<le> c \<and> c \<noteq> CHR 0xAD)"

definition hex_digit :: "nat \<Rightarrow> char" where
  "hex_digit n = ''0123456789abcdef'' ! (n mod 16)"

definition repr_char :: "char \<Rightarrow> char \<Rightarrow> string" where
  "repr_char q c =
     (if c = q \<or> c = CHR 0x5C then [CHR 0x5C, c]
      else if c = CHR 0x09 then [CHR 0x5C, CHR ''t'']
      else if c = CHR 0x0A then [CHR 0x5C, CHR ''n'']
      else if c = CHR 0x0D then [CHR 0x5C, CHR ''r'']
      else if printable c then [c]
      else [CHR 0x5C, CHR ''x'', hex_digit (of_char c div 16), hex_digit (of_char c mod 16)])"

definition py_repr :: "string \<Rightarrow> string" where
  "py_repr s =
     (let q = (if CHR 0x27 \<in> set s \<and> CHR 0x22 \<notin> set s then CHR 0x22 else CHR 0x27)
      in q # concat (map (repr_char q) s) @ [q])"

text \<open>\<^verbatim>\<open>t[i]\<close> on a tuple, for an index that is not negative.\<close>

definition index :: "'a list \<Rightarrow> nat \<Rightarrow> error + 'a" where
  "index t i = (if i < length t then Inr (t ! i) else Inl IndexError)"

subsection \<open>Version tuples\<close>

text \<open>An element of a version tuple, of type \<^verbatim>\<open>int | str\<close>.\<close>

datatype token = IntTok int | StrTok string

text \<open>\<^verbatim>\<open>int(part)\<close> on an element of \<^verbatim>\<open>parts\<close>; on an integer it is the identity.\<close>

fun int_of_part :: "token \<Rightarrow> int option" where
  "int_of_part (StrTok s) = py_int s"
| "int_of_part (IntTok n) = Some n"

text \<open>
  The loop of \<^verbatim>\<open>_get_version_tuple\<close>: \<^verbatim>\<open>for idx, part in enumerate(parts)\<close>, which
  stores \<^verbatim>\<open>int(part)\<close> at \<^verbatim>\<open>parts[idx]\<close> unless the conversion raises
  \<^verbatim>\<open>ValueError\<close>, which is suppressed and leaves the list as it is.
\<close>

function convert_parts :: "nat \<Rightarrow> token list \<Rightarrow> token list" where
  "convert_parts idx parts =
     (if idx < length parts then
        convert_parts (Suc idx)
          (case int_of_part (parts ! idx) of
             Some n \<Rightarrow> parts[idx := IntTok n]
           | None \<Rightarrow> parts)
      else parts)"
  by pat_completeness auto
termination
  by (relation "measure (\<lambda>(idx, parts). length parts - idx)") (auto split: option.splits)

declare convert_parts.simps [simp del]

definition get_version_tuple :: "string \<Rightarrow> token list" where
  "get_version_tuple version_str = convert_parts 0 (map StrTok (split_on CHR ''.'' version_str))"

text \<open>
  Python's comparison of two tuples under \<open><\<close>, \<open><=\<close>, \<open>>\<close> or \<open>>=\<close>: the first
  position where the elements are not equal decides, by the comparison of the two
  elements there; with no such position within the shorter tuple, the lengths decide.
  Two integers compare as numbers, two strings as strings, and an integer with a
  string raises \<^verbatim>\<open>TypeError\<close>.
\<close>

datatype relation = Lt | Le | Gt | Ge

fun cmp_int :: "relation \<Rightarrow> int \<Rightarrow> int \<Rightarrow> bool" where
  "cmp_int Lt a b = (a < b)"
| "cmp_int Le a b = (a \<le> b)"
| "cmp_int Gt a b = (b < a)"
| "cmp_int Ge a b = (b \<le> a)"

fun cmp_str :: "relation \<Rightarrow> string \<Rightarrow> string \<Rightarrow> bool" where
  "cmp_str Lt a b = str_lt a b"
| "cmp_str Le a b = (str_lt a b \<or> a = b)"
| "cmp_str Gt a b = str_lt b a"
| "cmp_str Ge a b = (str_lt b a \<or> a = b)"

fun token_cmp :: "relation \<Rightarrow> token \<Rightarrow> token \<Rightarrow> error + bool" where
  "token_cmp rel (IntTok a) (IntTok b) = Inr (cmp_int rel a b)"
| "token_cmp rel (StrTok a) (StrTok b) = Inr (cmp_str rel a b)"
| "token_cmp rel (IntTok a) (StrTok b) = Inl TypeError"
| "token_cmp rel (StrTok a) (IntTok b) = Inl TypeError"

fun tuple_cmp :: "relation \<Rightarrow> token list \<Rightarrow> token list \<Rightarrow> error + bool" where
  "tuple_cmp rel (x # xs) (y # ys) = (if x = y then tuple_cmp rel xs ys else token_cmp rel x y)"
| "tuple_cmp rel xs ys = Inr (cmp_int rel (int (length xs)) (int (length ys)))"

subsection \<open>The class \<^verbatim>\<open>DistroBase\<close>\<close>

record DistroBase =
  distribution :: string
  series :: string

text \<open>
  The other operand of an ordering operator, of type
  \<^verbatim>\<open>DistroBase | BaseName | tuple[str, str]\<close>: a base, an object with the attributes
  \<^verbatim>\<open>name\<close> and \<^verbatim>\<open>version\<close> of the protocol \<^verbatim>\<open>BaseName\<close>, or a tuple of strings
  (of any length, as Python does not check the annotation).
\<close>

datatype base_like = Base DistroBase | BaseName string string | Tuple "string list"

text \<open>
  The other operand of \<^verbatim>\<open>__eq__\<close>, of type \<^verbatim>\<open>object\<close>: one of the shapes above, or
  any other object, given by what its own \<^verbatim>\<open>__eq__\<close> answers when Python asks it in
  turn (\<open>None\<close> for \<^verbatim>\<open>NotImplemented\<close>, the answer of \<^verbatim>\<open>None\<close>, numbers, strings, lists).
\<close>

datatype object = Like base_like | Other "bool option"

datatype eq_result = Bool bool | NotImplemented

definition get_version :: "base_like \<Rightarrow> error + string" where
  "get_version base =
     (case base of
        Base b \<Rightarrow> Inr (series b)
      | BaseName name version \<Rightarrow> Inr version
      | Tuple t \<Rightarrow> index t 1)"

text \<open>The first half of \<^verbatim>\<open>_ensure_bases_comparable\<close>, which sets \<^verbatim>\<open>other_distro\<close>.\<close>

definition other_distro :: "base_like \<Rightarrow> error + string" where
  "other_distro other =
     (case other of
        Base b \<Rightarrow> Inr (distribution b)
      | BaseName name version \<Rightarrow> Inr name
      | Tuple t \<Rightarrow> index t 0)"

definition ensure_bases_comparable :: "DistroBase \<Rightarrow> base_like \<Rightarrow> error + unit" where
  "ensure_bases_comparable self other =
     (case other_distro other of
        Inl e \<Rightarrow> Inl e
      | Inr od \<Rightarrow>
          if distribution self \<noteq> od then
            Inl (ValueError (''Different distributions ('' @ distribution self @ '' and '' @ od
                             @ '') do not have comparable versions.''))
          else Inr ())"

definition DistroBase_eq :: "DistroBase \<Rightarrow> object \<Rightarrow> error + eq_result" where
  "DistroBase_eq self other =
     (case other of
        Like (Base b) \<Rightarrow>
          Inr (Bool (distribution self = distribution b \<and> series self = series b))
      | Like (BaseName name version) \<Rightarrow>
          Inr (Bool (distribution self = name \<and> series self = version))
      | Like (Tuple t) \<Rightarrow>
          (case index t 0 of
             Inl e \<Rightarrow> Inl e
           | Inr t0 \<Rightarrow>
               if distribution self = t0 then
                 (case index t 1 of
                    Inl e \<Rightarrow> Inl e
                  | Inr t1 \<Rightarrow> Inr (Bool (series self = t1)))
               else Inr (Bool False))
      | Other r \<Rightarrow> Inr NotImplemented)"

definition DistroBase_lt :: "DistroBase \<Rightarrow> base_like \<Rightarrow> error + bool" where
  "DistroBase_lt self other =
     (case ensure_bases_comparable self other of
        Inl e \<Rightarrow> Inl e
      | Inr u \<Rightarrow>
          let self_version_tuple = get_version_tuple (series self) in
          (case get_version other of
             Inl e \<Rightarrow> Inl e
           | Inr v \<Rightarrow>
               let other_version_tuple = get_version_tuple v in
               tuple_cmp Lt self_version_tuple other_version_tuple))"

definition DistroBase_le :: "DistroBase \<Rightarrow> base_like \<Rightarrow> error + bool" where
  "DistroBase_le self other =
     (case ensure_bases_comparable self other of
        Inl e \<Rightarrow> Inl e
      | Inr u \<Rightarrow>
          let self_version_tuple = get_version_tuple (series self) in
          (case get_version other of
             Inl e \<Rightarrow> Inl e
           | Inr v \<Rightarrow>
               let other_version_tuple = get_version_tuple v in
               tuple_cmp Le self_version_tuple other_version_tuple))"

definition DistroBase_gt :: "DistroBase \<Rightarrow> base_like \<Rightarrow> error + bool" where
  "DistroBase_gt self other =
     (case ensure_bases_comparable self other of
        Inl e \<Rightarrow> Inl e
      | Inr u \<Rightarrow>
          let self_version_tuple = get_version_tuple (series self) in
          (case get_version other of
             Inl e \<Rightarrow> Inl e
           | Inr v \<Rightarrow>
               let other_version_tuple = get_version_tuple v in
               tuple_cmp Gt self_version_tuple other_version_tuple))"

definition DistroBase_ge :: "DistroBase \<Rightarrow> base_like \<Rightarrow> error + bool" where
  "DistroBase_ge self other =
     (case ensure_bases_comparable self other of
        Inl e \<Rightarrow> Inl e
      | Inr u \<Rightarrow>
          let self_version_tuple = get_version_tuple (series self) in
          (case get_version other of
             Inl e \<Rightarrow> Inl e
           | Inr v \<Rightarrow>
               let other_version_tuple = get_version_tuple v in
               tuple_cmp Ge self_version_tuple other_version_tuple))"

definition from_str :: "string \<Rightarrow> error + DistroBase" where
  "from_str base_str =
     (if count_list base_str CHR ''@'' \<noteq> 1 then
        Inl (ValueError (''Invalid base string '' @ py_repr base_str @ ''. Format should be ''
                         @ [CHR 0x27] @ ''<distribution>@<series>'' @ [CHR 0x27]))
      else
        (case partition_on CHR ''@'' base_str of
           (before, sep, after) \<Rightarrow> Inr \<lparr>distribution = before, series = after\<rparr>))"

text \<open>
  What the module reads of a \<^verbatim>\<open>distro.LinuxDistribution\<close>: the strings its methods
  \<^verbatim>\<open>id()\<close>, \<^verbatim>\<open>like()\<close> and \<^verbatim>\<open>version()\<close> return.
\<close>

record LinuxDistribution =
  id' :: string
  like :: string
  version :: string

definition from_linux_distribution :: "LinuxDistribution \<Rightarrow> DistroBase" where
  "from_linux_distribution d = \<lparr>distribution = id' d, series = version d\<rparr>"

text \<open>
  \<^verbatim>\<open>is_ubuntu_like\<close>; \<open>host\<close> is the descriptor \<^verbatim>\<open>distro.LinuxDistribution()\<close> of the
  running system, which stands in when the argument is \<^verbatim>\<open>None\<close>.
\<close>

definition is_ubuntu_like :: "LinuxDistribution \<Rightarrow> LinuxDistribution option \<Rightarrow> bool" where
  "is_ubuntu_like host arg =
     (let d = (case arg of None \<Rightarrow> host | Some given \<Rightarrow> given) in
      if id' d = ''ubuntu'' then True
      else
        let distros_like = split_ws (like d) in
        if ''ubuntu'' \<in> set distros_like then True else False)"

subsection \<open>The operators as Python applies them\<close>

text \<open>\<open>self rel other\<close> for each of the four ordering relations.\<close>

fun ordering :: "relation \<Rightarrow> DistroBase \<Rightarrow> base_like \<Rightarrow> error + bool" where
  "ordering Lt self other = DistroBase_lt self other"
| "ordering Le self other = DistroBase_le self other"
| "ordering Gt self other = DistroBase_gt self other"
| "ordering Ge self other = DistroBase_ge self other"

text \<open>
  \<^verbatim>\<open>self == other\<close>: the answer of \<^verbatim>\<open>__eq__\<close>, or after \<^verbatim>\<open>NotImplemented\<close> the
  answer of the other object's \<^verbatim>\<open>__eq__\<close>, or after \<^verbatim>\<open>NotImplemented\<close> again
  whether the two are the same object, which they are not.  \<^verbatim>\<open>self != other\<close> is the
  method \<^verbatim>\<open>__ne__\<close> inherited from \<^verbatim>\<open>object\<close>, which negates the answer of
  \<^verbatim>\<open>__eq__\<close>; the other object's \<^verbatim>\<open>__ne__\<close> is taken to do the same.
\<close>

definition operator_eq :: "DistroBase \<Rightarrow> object \<Rightarrow> error + bool" where
  "operator_eq self other =
     (case DistroBase_eq self other of
        Inl e \<Rightarrow> Inl e
      | Inr (Bool b) \<Rightarrow> Inr b
      | Inr NotImplemented \<Rightarrow>
          (case other of Other (Some b) \<Rightarrow> Inr b | _ \<Rightarrow> Inr False))"

definition operator_ne :: "DistroBase \<Rightarrow> object \<Rightarrow> error + bool" where
  "operator_ne self other =
     (case DistroBase_eq self other of
        Inl e \<Rightarrow> Inl e
      | Inr (Bool b) \<Rightarrow> Inr (\<not> b)
      | Inr NotImplemented \<Rightarrow>
          (case other of Other (Some b) \<Rightarrow> Inr (\<not> b) | _ \<Rightarrow> Inr True))"

subsection \<open>Notions of the specification\<close>

text \<open>What the loop does to one element: the integer when \<^verbatim>\<open>int\<close> accepts it.\<close>

definition convert_part :: "token \<Rightarrow> token" where
  "convert_part p = (case int_of_part p of Some n \<Rightarrow> IntTok n | None \<Rightarrow> p)"

text \<open>
  A series whose pieces between the dots are all non-empty runs of the digits 0 to 9,
  a series none of whose pieces is longer than the limit of \<^verbatim>\<open>int\<close>, the numbers
  the pieces denote, and the order of two such lists of numbers: the first position
  where they differ decides, and a proper prefix comes first.
\<close>

definition digits_value :: "string \<Rightarrow> int" where
  "digits_value t = foldl (\<lambda>a c. 10 * a + digit_val c) 0 t"

definition numeric_series :: "string \<Rightarrow> bool" where
  "numeric_series s = list_all (\<lambda>t. t \<noteq> [] \<and> list_all is_digit t) (split_on CHR ''.'' s)"

definition within_digit_limit :: "string \<Rightarrow> bool" where
  "within_digit_limit s =
     list_all (\<lambda>t. length t \<le> int_max_str_digits) (split_on CHR ''.'' s)"

definition series_numbers :: "string \<Rightarrow> int list" where
  "series_numbers s = map digits_value (split_on CHR ''.'' s)"

fun numbers_lt :: "int list \<Rightarrow> int list \<Rightarrow> bool" where
  "numbers_lt [] [] = False"
| "numbers_lt [] (y # ys) = True"
| "numbers_lt (x # xs) [] = False"
| "numbers_lt (x # xs) (y # ys) = (x < y \<or> (x = y \<and> numbers_lt xs ys))"

text \<open>The series of the Ubuntu bases of the unit tests (\<^verbatim>\<open>ALL_UBUNTU\<close>).\<close>

definition ALL_UBUNTU :: "string list" where
  "ALL_UBUNTU = [''6.06'', ''18.04'', ''20.04'', ''22.04'', ''24.04'', ''24.10'']"

text \<open>
  Two version tuples whose first unequal elements are an integer on one side and a
  string on the other.
\<close>

fun is_int :: "token \<Rightarrow> bool" where
  "is_int (IntTok n) = True"
| "is_int (StrTok s) = False"

fun mixed_at_difference :: "token list \<Rightarrow> token list \<Rightarrow> bool" where
  "mixed_at_difference (x # xs) (y # ys) =
     (if x = y then mixed_at_difference xs ys else is_int x \<noteq> is_int y)"
| "mixed_at_difference xs ys = False"

text \<open>
  \<open>t\<close> is a white-space-separated token of \<open>s\<close>: a non-empty piece of \<open>s\<close> without
  white space, with white space or the end of \<open>s\<close> on either side.
\<close>

definition ws_token :: "string \<Rightarrow> string \<Rightarrow> bool" where
  "ws_token t s \<longleftrightarrow>
     t \<noteq> [] \<and> \<not> (\<exists>c\<in>set t. is_space c)
     \<and> (\<exists>pre post. s = pre @ t @ post
           \<and> (pre = [] \<or> is_space (last pre)) \<and> (post = [] \<or> is_space (hd post)))"

subsection \<open>Facts about the string operations\<close>

lemma split_on_nonempty: "split_on sep s \<noteq> []"
  by (induction s) (auto simp: Let_def)

lemma join_Cons: "ps \<noteq> [] \<Longrightarrow> join sep (p # ps) = p @ sep @ join sep ps"
  by (cases ps) auto

lemma join_split_on: "join [sep] (split_on sep s) = s"
proof (induction s)
  case Nil
  show ?case by simp
next
  case (Cons c cs)
  obtain t ts where r: "split_on sep cs = t # ts"
    using split_on_nonempty [of sep cs] by (cases "split_on sep cs") auto
  show ?case
  proof (cases "c = sep")
    case True
    then show ?thesis
      using Cons.IH r by (simp add: Let_def)
  next
    case False
    have "join [sep] ((c # t) # ts) = c # join [sep] (t # ts)"
      by (cases ts) auto
    then show ?thesis
      using False Cons.IH r by (simp add: Let_def)
  qed
qed

lemma split_on_no_sep: "sep \<notin> set (concat (split_on sep s))"
proof (induction s)
  case Nil
  show ?case by simp
next
  case (Cons c cs)
  obtain t ts where r: "split_on sep cs = t # ts"
    using split_on_nonempty [of sep cs] by (cases "split_on sep cs") auto
  then show ?case
    using Cons.IH by (auto simp: Let_def)
qed

lemma length_split_on: "length (split_on sep s) = Suc (count_list s sep)"
proof (induction s)
  case Nil
  show ?case by simp
next
  case (Cons c cs)
  obtain t ts where r: "split_on sep cs = t # ts"
    using split_on_nonempty [of sep cs] by (cases "split_on sep cs") auto
  then show ?case
    using Cons.IH by (auto simp: Let_def)
qed

lemma partition_on_count_one:
  "count_list s sep = 1 \<Longrightarrow>
   \<exists>a b. partition_on sep s = (a, [sep], b) \<and> s = a @ sep # b \<and> sep \<notin> set a \<and> sep \<notin> set b"
proof (induction s)
  case Nil
  then show ?case by simp
next
  case (Cons c cs)
  show ?case
  proof (cases "c = sep")
    case True
    then have "count_list cs sep = 0"
      using Cons.prems by simp
    then have "sep \<notin> set cs"
      by (simp add: count_list_0_iff)
    then show ?thesis
      using True by simp
  next
    case False
    then have "count_list cs sep = 1"
      using Cons.prems by simp
    then obtain a b where "partition_on sep cs = (a, [sep], b)" "cs = a @ sep # b"
      "sep \<notin> set a" "sep \<notin> set b"
      using Cons.IH by blast
    then show ?thesis
      using False by auto
  qed
qed

lemma count_list_split: "sep \<notin> set d \<Longrightarrow> sep \<notin> set v \<Longrightarrow> count_list (d @ sep # v) sep = 1"
  by (induction d) (auto simp: count_list_0_iff)

lemma partition_on_append: "sep \<notin> set d \<Longrightarrow> partition_on sep (d @ sep # v) = (d, [sep], v)"
  by (induction d) auto

lemma repr_char_plain:
  "printable c \<Longrightarrow> c \<noteq> CHR 0x27 \<Longrightarrow> c \<noteq> CHR 0x5C \<Longrightarrow> repr_char CHR 0x27 c = [c]"
  by (auto simp: repr_char_def printable_def)

lemma py_repr_plain:
  "list_all (\<lambda>c. printable c \<and> c \<noteq> CHR 0x27 \<and> c \<noteq> CHR 0x5C) s \<Longrightarrow> py_repr s = CHR 0x27 # s @ [CHR 0x27]"
proof -
  assume a: "list_all (\<lambda>c. printable c \<and> c \<noteq> CHR 0x27 \<and> c \<noteq> CHR 0x5C) s"
  then have "concat (map (repr_char CHR 0x27) s) = s"
    by (induction s) (simp_all add: repr_char_plain)
  moreover have "CHR 0x27 \<notin> set s"
    using a by (auto simp: list_all_iff)
  ultimately show ?thesis
    by (simp add: py_repr_def Let_def)
qed

lemma is_digit_not_int_space: "is_digit c \<Longrightarrow> \<not> int_space c"
  by (auto simp: is_digit_def int_space_def)

lemma is_digit_not_sign: "is_digit c \<Longrightarrow> c \<noteq> CHR ''+'' \<and> c \<noteq> CHR ''-''"
  by (auto simp: is_digit_def)

lemma py_digits_all:
  "list_all is_digit cs \<Longrightarrow> py_digits acc cs = Some (foldl (\<lambda>a c. 10 * a + digit_val c) acc cs)"
  by (induction cs arbitrary: acc) simp_all

lemma filter_is_digit: "list_all is_digit t \<Longrightarrow> filter is_digit t = t"
  by (simp add: list_all_iff)

lemma py_literal_digits:
  "t \<noteq> [] \<Longrightarrow> list_all is_digit t \<Longrightarrow> length t \<le> int_max_str_digits \<Longrightarrow>
   py_literal t = Some (digits_value t)"
proof -
  assume t: "t \<noteq> []" and d: "list_all is_digit t" and l: "length t \<le> int_max_str_digits"
  obtain c cs where tc: "t = c # cs"
    using t by (cases t) auto
  have "\<not> int_max_str_digits < length (filter is_digit t)"
    using l by (simp add: filter_is_digit [OF d])
  then have "py_literal t = py_digits (digit_val c) cs"
    using d tc by (simp add: py_literal_def)
  then show ?thesis
    using d tc by (simp add: digits_value_def py_digits_all)
qed

lemma py_literal_long:
  "list_all is_digit t \<Longrightarrow> int_max_str_digits < length t \<Longrightarrow> py_literal t = None"
proof -
  assume d: "list_all is_digit t" and l: "int_max_str_digits < length t"
  have "int_max_str_digits < length (filter is_digit t)"
    using l by (simp add: filter_is_digit [OF d])
  then show ?thesis
    by (cases t) (simp_all add: py_literal_def)
qed

lemma rstrip_digits: "t \<noteq> [] \<Longrightarrow> list_all is_digit t \<Longrightarrow> rstrip t = t"
proof -
  assume t: "t \<noteq> []" and d: "list_all is_digit t"
  then have "\<not> int_space (hd (rev t))"
    by (simp add: hd_rev list_all_iff is_digit_not_int_space)
  then have "dropWhile int_space (rev t) = rev t"
    using t by (cases "rev t") auto
  then show ?thesis
    by (simp add: rstrip_def)
qed

lemma py_int_literal:
  "t \<noteq> [] \<Longrightarrow> list_all is_digit t \<Longrightarrow> py_int t = py_literal t"
proof -
  assume t: "t \<noteq> []" and d: "list_all is_digit t"
  obtain c cs where tc: "t = c # cs"
    using t by (cases t) auto
  have c: "is_digit c"
    using d tc by simp
  have "dropWhile int_space t = c # cs"
    using c tc by (simp add: is_digit_not_int_space)
  then show ?thesis
    using is_digit_not_sign [OF c] rstrip_digits [OF t d] tc
    by (simp add: py_int_def)
qed

lemma py_int_digits:
  "t \<noteq> [] \<Longrightarrow> list_all is_digit t \<Longrightarrow> length t \<le> int_max_str_digits \<Longrightarrow>
   py_int t = Some (digits_value t)"
  by (simp add: py_int_literal py_literal_digits)

lemma py_int_long:
  "list_all is_digit t \<Longrightarrow> int_max_str_digits < length t \<Longrightarrow> py_int t = None"
proof -
  assume d: "list_all is_digit t" and l: "int_max_str_digits < length t"
  have "t \<noteq> []"
    using l by auto
  then show ?thesis
    by (simp add: py_int_literal [OF _ d] py_literal_long [OF d l])
qed

lemma split_on_without_sep: "sep \<notin> set s \<Longrightarrow> split_on sep s = [s]"
  by (induction s) (auto simp: Let_def)

lemma str_lt_append: "str_lt (p @ a) (p @ b) = str_lt a b"
  by (induction p) simp_all

lemma digits_value_zeros: "digits_value (replicate n CHR ''0'' @ t) = digits_value t"
proof -
  have "foldl (\<lambda>a c. 10 * a + digit_val c) 0 (replicate n CHR ''0'') = 0"
    by (induction n) (simp_all add: digit_val_def)
  then show ?thesis
    by (simp add: digits_value_def)
qed

lemma split_ws_Nil:
  assumes "dropWhile is_space s = []"
  shows "split_ws s = []"
  by (subst split_ws.simps) (simp only: assms list.case)

lemma split_ws_Cons:
  assumes "dropWhile is_space s = c # cs"
  shows "split_ws s =
    (c # takeWhile (\<lambda>x. \<not> is_space x) cs) # split_ws (dropWhile (\<lambda>x. \<not> is_space x) cs)"
  by (subst split_ws.simps) (simp only: assms list.case)

lemma last_dropWhile: "dropWhile P xs \<noteq> [] \<Longrightarrow> last (dropWhile P xs) = last xs"
proof -
  assume n: "dropWhile P xs \<noteq> []"
  have "last (takeWhile P xs @ dropWhile P xs) = last (dropWhile P xs)"
    by (rule last_appendR) (rule n)
  then show ?thesis by simp
qed

lemma split_ws_sound: "t \<in> set (split_ws s) \<Longrightarrow> ws_token t s"
proof (induction s arbitrary: t rule: split_ws.induct)
  case (1 s)
  let ?ns = "\<lambda>x. \<not> is_space x"
  show ?case
  proof (cases "dropWhile is_space s")
    case Nil
    then show ?thesis
      using "1.prems" by (simp add: split_ws_Nil)
  next
    case (Cons c cs)
    define sp where "sp = takeWhile is_space s"
    define w where "w = c # takeWhile ?ns cs"
    define rest where "rest = dropWhile ?ns cs"
    have s: "s = sp @ w @ rest"
      using takeWhile_dropWhile_id [of is_space s] takeWhile_dropWhile_id [of ?ns cs]
      by (simp add: sp_def w_def rest_def Cons)
    have c: "\<not> is_space c"
      using hd_dropWhile [of is_space s] Cons by simp
    have w_ns: "\<not> (\<exists>x\<in>set w. is_space x)"
      using c by (auto simp: w_def dest: set_takeWhileD)
    have sp_end: "sp = [] \<or> is_space (last sp)"
    proof (cases "sp = []")
      case False
      then have "last sp \<in> set sp" by simp
      then show ?thesis
        by (auto simp: sp_def dest: set_takeWhileD)
    qed simp
    have rest_start: "rest = [] \<or> is_space (hd rest)"
      using hd_dropWhile [of ?ns cs] by (auto simp: rest_def)
    have split: "split_ws s = w # split_ws rest"
      by (simp add: split_ws_Cons [OF Cons] w_def rest_def)
    show ?thesis
    proof (cases "t = w")
      case True
      have "w \<noteq> []" by (simp add: w_def)
      then show ?thesis
        unfolding ws_token_def using True w_ns s sp_end rest_start by blast
    next
      case False
      then have "t \<in> set (split_ws rest)"
        using "1.prems" split by simp
      then have tok: "ws_token t rest"
        using "1.IH" [OF Cons] by (simp add: rest_def)
      then obtain pre post where r: "rest = pre @ t @ post"
        and p: "pre = [] \<or> is_space (last pre)" and q: "post = [] \<or> is_space (hd post)"
        and t: "t \<noteq> []" "\<not> (\<exists>x\<in>set t. is_space x)"
        unfolding ws_token_def by blast
      have "pre \<noteq> []"
      proof
        assume "pre = []"
        then have "hd rest = hd t" "rest \<noteq> []"
          using r t by simp_all
        then have "is_space (hd t)"
          using rest_start by auto
        moreover have "hd t \<in> set t"
          using t by simp
        ultimately show False
          using t by blast
      qed
      then have "is_space (last (sp @ w @ pre))" "s = (sp @ w @ pre) @ t @ post"
        using p s r by simp_all
      then show ?thesis
        unfolding ws_token_def using t q by blast
    qed
  qed
qed

lemma split_ws_complete:
  "t \<noteq> [] \<Longrightarrow> \<not> (\<exists>x\<in>set t. is_space x) \<Longrightarrow> s = pre @ t @ post \<Longrightarrow>
   pre = [] \<or> is_space (last pre) \<Longrightarrow> post = [] \<or> is_space (hd post) \<Longrightarrow>
   t \<in> set (split_ws s)"
proof (induction s arbitrary: pre rule: split_ws.induct)
  case (1 s)
  let ?ns = "\<lambda>x. \<not> is_space x"
  obtain a t' where t: "t = a # t'"
    using "1.prems"(1) by (cases t) auto
  have a: "\<not> is_space a" and t': "\<And>x. x \<in> set t' \<Longrightarrow> \<not> is_space x"
    using "1.prems"(2) t by auto
  show ?case
  proof (cases "\<forall>x\<in>set pre. is_space x")
    case True
    then have "dropWhile is_space s = dropWhile is_space (t @ post)"
      using "1.prems"(3) by (simp add: dropWhile_append2)
    then have d: "dropWhile is_space s = a # (t' @ post)"
      using a t by simp
    have "takeWhile ?ns post = []"
      using "1.prems"(5) by (cases post) auto
    then have "takeWhile ?ns (t' @ post) = t'"
      using t' by (simp add: takeWhile_append2)
    then show ?thesis
      using split_ws_Cons [OF d] t by simp
  next
    case False
    then obtain x where x: "x \<in> set pre" "\<not> is_space x"
      by blast
    then have dp: "dropWhile is_space pre \<noteq> []"
      by (auto simp: dropWhile_eq_Nil_conv)
    then obtain c pre2 where c: "dropWhile is_space pre = c # pre2"
      by (cases "dropWhile is_space pre") auto
    have d: "dropWhile is_space s = c # (pre2 @ t @ post)"
      using "1.prems"(3) x c by (simp add: dropWhile_append1)
    have "pre \<noteq> []"
      using x by auto
    then have lp: "is_space (last pre)"
      using "1.prems"(4) by simp
    have lc: "last (c # pre2) = last pre"
      using last_dropWhile [OF dp] c by simp
    have cn: "\<not> is_space c"
      using hd_dropWhile [OF dp] c by simp
    have p2: "pre2 \<noteq> []"
      using lc lp cn by auto
    then have l2: "is_space (last pre2)"
      using lc lp by simp
    have "last pre2 \<in> set pre2"
      using p2 by simp
    then have y: "\<exists>y\<in>set pre2. \<not> ?ns y"
      using l2 by blast
    then obtain y where y: "y \<in> set pre2" "\<not> ?ns y"
      by blast
    have dr: "dropWhile ?ns (pre2 @ t @ post) = dropWhile ?ns pre2 @ t @ post"
      using y by (simp add: dropWhile_append1)
    have dn: "dropWhile ?ns pre2 \<noteq> []"
      using y by (auto simp: dropWhile_eq_Nil_conv)
    have "is_space (last (dropWhile ?ns pre2))"
      using last_dropWhile [OF dn] l2 by simp
    then have "t \<in> set (split_ws (dropWhile ?ns (pre2 @ t @ post)))"
      using "1.IH" [OF d "1.prems"(1,2) dr _ "1.prems"(5)] by simp
    then show ?thesis
      using split_ws_Cons [OF d] by simp
  qed
qed

lemma split_ws_tokens: "t \<in> set (split_ws s) \<longleftrightarrow> ws_token t s"
proof
  show "t \<in> set (split_ws s) \<Longrightarrow> ws_token t s"
    by (rule split_ws_sound)
next
  assume "ws_token t s"
  then show "t \<in> set (split_ws s)"
    unfolding ws_token_def using split_ws_complete by blast
qed

subsection \<open>Facts about the version tuple\<close>

lemma convert_parts_eq:
  "convert_parts idx parts = take idx parts @ map convert_part (drop idx parts)"
proof (induction idx parts rule: convert_parts.induct)
  case (1 idx parts)
  show ?case
  proof (cases "idx < length parts")
    case False
    then show ?thesis by (subst convert_parts.simps) simp
  next
    case True
    define parts' where
      "parts' = (case int_of_part (parts ! idx) of Some n \<Rightarrow> parts[idx := IntTok n] | None \<Rightarrow> parts)"
    have upd: "parts' = parts[idx := convert_part (parts ! idx)]"
      by (simp add: parts'_def convert_part_def split: option.splits)
    have step: "convert_parts idx parts = convert_parts (Suc idx) parts'"
      using True by (subst convert_parts.simps) (simp add: parts'_def)
    have IH: "convert_parts (Suc idx) parts' =
        take (Suc idx) parts' @ map convert_part (drop (Suc idx) parts')"
      using "1.IH" [OF True] by (simp add: parts'_def)
    have t: "take (Suc idx) parts' = take idx parts @ [convert_part (parts ! idx)]"
      using True by (simp add: upd take_Suc_conv_app_nth)
    have d: "drop (Suc idx) parts' = drop (Suc idx) parts"
      by (simp add: upd)
    have "drop idx parts = parts ! idx # drop (Suc idx) parts"
      using True by (simp add: Cons_nth_drop_Suc)
    then show ?thesis
      unfolding step IH t d by simp
  qed
qed

lemma get_version_tuple_map:
  "get_version_tuple s =
     map (\<lambda>t. case py_int t of Some n \<Rightarrow> IntTok n | None \<Rightarrow> StrTok t) (split_on CHR ''.'' s)"
  by (simp add: get_version_tuple_def convert_parts_eq convert_part_def comp_def)

lemma get_version_tuple_numeric:
  "numeric_series s \<Longrightarrow> within_digit_limit s \<Longrightarrow>
   get_version_tuple s = map IntTok (series_numbers s)"
  by (simp add: numeric_series_def within_digit_limit_def series_numbers_def
      get_version_tuple_map list_all_iff py_int_digits)

lemma tuple_cmp_numbers:
  "numbers_lt xs ys \<Longrightarrow>
   tuple_cmp Lt (map IntTok xs) (map IntTok ys) = Inr True
   \<and> tuple_cmp Le (map IntTok xs) (map IntTok ys) = Inr True
   \<and> tuple_cmp Gt (map IntTok ys) (map IntTok xs) = Inr True
   \<and> tuple_cmp Ge (map IntTok ys) (map IntTok xs) = Inr True"
  by (induction xs ys rule: numbers_lt.induct) auto

lemma numbers_lt_irrefl: "\<not> numbers_lt xs xs"
  by (induction xs) auto

lemma token_cmp_mixed:
  "x \<noteq> y \<Longrightarrow> token_cmp rel x y = (if is_int x \<noteq> is_int y then Inl TypeError
     else Inr (case (x, y) of (IntTok a, IntTok b) \<Rightarrow> cmp_int rel a b | (StrTok a, StrTok b) \<Rightarrow> cmp_str rel a b | _ \<Rightarrow> False))"
  by (cases x; cases y) auto

lemma tuple_cmp_mixed:
  "tuple_cmp rel xs ys = Inl TypeError \<and> mixed_at_difference xs ys
   \<or> (\<exists>r. tuple_cmp rel xs ys = Inr r) \<and> \<not> mixed_at_difference xs ys"
proof (induction rel xs ys rule: tuple_cmp.induct)
  case (1 rel x xs y ys)
  then show ?case
    by (cases x; cases y) auto
qed auto

subsection \<open>Facts about the operators\<close>

lemmas ordering_defs =
  DistroBase_lt_def DistroBase_le_def DistroBase_gt_def DistroBase_ge_def

lemma ordering_eq:
  "ordering rel self other =
     (case ensure_bases_comparable self other of
        Inl e \<Rightarrow> Inl e
      | Inr u \<Rightarrow>
          (case get_version other of
             Inl e \<Rightarrow> Inl e
           | Inr v \<Rightarrow> tuple_cmp rel (get_version_tuple (series self)) (get_version_tuple v)))"
  by (cases rel) (simp_all add: ordering_defs Let_def split: sum.splits)

lemma ensure_bases_comparable_same:
  "other_distro other = Inr (distribution self) \<Longrightarrow> ensure_bases_comparable self other = Inr ()"
  by (simp add: ensure_bases_comparable_def)

lemma ensure_bases_comparable_differ:
  "other_distro other = Inr od \<Longrightarrow> distribution self \<noteq> od \<Longrightarrow>
   ensure_bases_comparable self other =
     Inl (ValueError (''Different distributions ('' @ distribution self @ '' and '' @ od
                      @ '') do not have comparable versions.''))"
  by (simp add: ensure_bases_comparable_def)

lemma DistroBase_eq_differ:
  "other_distro other = Inr od \<Longrightarrow> distribution self \<noteq> od \<Longrightarrow>
   DistroBase_eq self (Like other) = Inr (Bool False)"
  by (cases other) (auto simp: DistroBase_eq_def other_distro_def index_def split: if_splits)

lemma DistroBase_eq_Tuple:
  "DistroBase_eq self (Like (Tuple (x # y # rest))) =
     Inr (Bool (distribution self = x \<and> series self = y))"
  by (simp add: DistroBase_eq_def index_def)

subsection \<open>The claims\<close>

text \<open>
  C1: when the distribution of the other operand (the field of a base, the name of a
  named shape, the first element of a tuple) differs from the one of \<open>self\<close>, each of
  the four ordering operators raises \<^verbatim>\<open>ValueError\<close> with the message
  "Different distributions (A and B) do not have comparable versions.", which holds
  both identifiers, while \<^verbatim>\<open>__eq__\<close> raises nothing and answers false.  When the other
  operand is a base, the same holds with the two operands exchanged.
\<close>

theorem C1_incompatible_distributions:
  "other_distro other = Inr od \<Longrightarrow> distribution self \<noteq> od \<Longrightarrow>
     ordering rel self other =
       Inl (ValueError (''Different distributions ('' @ distribution self @ '' and '' @ od
                        @ '') do not have comparable versions.''))
     \<and> DistroBase_eq self (Like other) = Inr (Bool False)
     \<and> operator_eq self (Like other) = Inr False
     \<and> (\<forall>b. other = Base b \<longrightarrow>
           ordering rel b (Base self) =
             Inl (ValueError (''Different distributions ('' @ od @ '' and '' @ distribution self
                              @ '') do not have comparable versions.''))
           \<and> DistroBase_eq b (Like (Base self)) = Inr (Bool False)
           \<and> operator_eq b (Like (Base self)) = Inr False)"
proof -
  assume od: "other_distro other = Inr od" and ne: "distribution self \<noteq> od"
  have raise: "ordering rel self other =
       Inl (ValueError (''Different distributions ('' @ distribution self @ '' and '' @ od
                        @ '') do not have comparable versions.''))"
    by (simp add: ordering_eq ensure_bases_comparable_differ [OF od ne])
  have eq: "DistroBase_eq self (Like other) = Inr (Bool False)"
    by (rule DistroBase_eq_differ [OF od ne])
  have swapped: "ordering rel b (Base self) =
             Inl (ValueError (''Different distributions ('' @ od @ '' and '' @ distribution self
                              @ '') do not have comparable versions.''))
           \<and> DistroBase_eq b (Like (Base self)) = Inr (Bool False)
           \<and> operator_eq b (Like (Base self)) = Inr False" if b: "other = Base b" for b
  proof -
    have d: "distribution b = od"
      using od b by (simp add: other_distro_def)
    have o: "other_distro (Base self) = Inr (distribution self)"
      by (simp add: other_distro_def)
    have n: "distribution b \<noteq> distribution self"
      using d ne by simp
    show ?thesis
      using ensure_bases_comparable_differ [OF o n] DistroBase_eq_differ [OF o n] d
      by (simp add: ordering_eq operator_eq_def)
  qed
  show ?thesis
    using raise eq swapped by (simp add: operator_eq_def)
qed

theorem C1_incompatible_distributions_witness:
  "ordering Lt \<lparr>distribution = ''ubuntu'', series = ''24.04''\<rparr>
       (Base \<lparr>distribution = ''debian'', series = ''12''\<rparr>) =
     Inl (ValueError ''Different distributions (ubuntu and debian) do not have comparable versions.'')
   \<and> ordering Ge \<lparr>distribution = ''debian'', series = ''12''\<rparr>
       (Base \<lparr>distribution = ''ubuntu'', series = ''24.04''\<rparr>) =
     Inl (ValueError ''Different distributions (debian and ubuntu) do not have comparable versions.'')
   \<and> operator_eq \<lparr>distribution = ''ubuntu'', series = ''24.04''\<rparr>
       (Like (Base \<lparr>distribution = ''debian'', series = ''12''\<rparr>)) = Inr False"
proof -
  have od: "other_distro (Base \<lparr>distribution = ''debian'', series = ''12''\<rparr>) = Inr ''debian''"
    by (simp add: other_distro_def)
  have ne: "distribution \<lparr>distribution = ''ubuntu'', series = ''24.04''\<rparr> \<noteq> ''debian''"
    by simp
  show ?thesis
    using C1_incompatible_distributions [OF od ne, of Lt]
      C1_incompatible_distributions [OF od ne, of Ge]
    by simp
qed

text \<open>
  C2: the version tuple of \<open>s\<close> has one element for each piece of \<open>s\<close> between its
  dots, in the same order: the integer when \<^verbatim>\<open>int\<close> accepts the piece, the piece
  itself otherwise.  The pieces contain no dot and joined by dots they give \<open>s\<close> back,
  so nothing is dropped and there is one more piece than there are dots.  The tuples of
  "7", "20.04", "10-buster" and the empty string are (7,), (20, 4), ("10-buster",)
  and ("",).
\<close>

theorem C2_version_tuple:
  "get_version_tuple s =
     map (\<lambda>t. case py_int t of Some n \<Rightarrow> IntTok n | None \<Rightarrow> StrTok t) (split_on CHR ''.'' s)
   \<and> join ''.'' (split_on CHR ''.'' s) = s
   \<and> CHR ''.'' \<notin> set (concat (split_on CHR ''.'' s))
   \<and> length (get_version_tuple s) = Suc (count_list s CHR ''.'')
   \<and> get_version_tuple ''7'' = [IntTok 7]
   \<and> get_version_tuple ''20.04'' = [IntTok 20, IntTok 4]
   \<and> get_version_tuple ''10-buster'' = [StrTok ''10-buster'']
   \<and> get_version_tuple '''' = [StrTok '''']"
proof -
  have ex: "get_version_tuple ''7'' = [IntTok 7]"
    "get_version_tuple ''20.04'' = [IntTok 20, IntTok 4]"
    "get_version_tuple ''10-buster'' = [StrTok ''10-buster'']"
    "get_version_tuple '''' = [StrTok '''']"
    by (simp_all add: get_version_tuple_map py_int_def py_literal_def int_max_str_digits_def rstrip_def
        int_space_def is_digit_def digit_val_def Let_def)
  have len: "length (get_version_tuple s) = Suc (count_list s CHR ''.'')"
    by (simp add: get_version_tuple_map length_split_on)
  show ?thesis
    using ex len get_version_tuple_map [of s] join_split_on [of "CHR ''.''" s]
      split_on_no_sep [of "CHR ''.''" s]
    by simp
qed


text \<open>
  C4: \<^verbatim>\<open>from_str\<close> returns a base exactly when the string holds one "@"; the base
  then has the text before the "@" as its distribution and the text after it as its
  series, unchanged, so that \<^verbatim>\<open>from_str\<close> of \<open>d@v\<close> is the base of \<open>d\<close> and \<open>v\<close> for any
  two strings without "@".  With no "@" or more than one it raises \<^verbatim>\<open>ValueError\<close>
  with the message "Invalid base string R. Format should be '<distribution>@<series>'",
  where R is \<^verbatim>\<open>repr\<close> of the input: the input in single quotes when it consists of
  printable characters other than the single quote and the backslash.
\<close>

theorem C4_from_str:
  "((\<exists>b. from_str s = Inr b) \<longleftrightarrow> count_list s CHR ''@'' = 1)
   \<and> (from_str s = Inr b \<longrightarrow>
        s = distribution b @ ''@'' @ series b
        \<and> CHR ''@'' \<notin> set (distribution b) \<and> CHR ''@'' \<notin> set (series b))
   \<and> (CHR ''@'' \<notin> set d \<and> CHR ''@'' \<notin> set v \<longrightarrow>
        from_str (d @ ''@'' @ v) = Inr \<lparr>distribution = d, series = v\<rparr>)
   \<and> (count_list s CHR ''@'' \<noteq> 1 \<longrightarrow>
        from_str s =
          Inl (ValueError (''Invalid base string '' @ py_repr s @ ''. Format should be ''
                           @ [CHR 0x27] @ ''<distribution>@<series>'' @ [CHR 0x27])))
   \<and> (list_all (\<lambda>c. printable c \<and> c \<noteq> CHR 0x27 \<and> c \<noteq> CHR 0x5C) s \<longrightarrow>
        py_repr s = [CHR 0x27] @ s @ [CHR 0x27])
   \<and> from_str ''ubuntu@24.04'' = Inr \<lparr>distribution = ''ubuntu'', series = ''24.04''\<rparr>
   \<and> from_str ''bad-string'' =
        Inl (ValueError (''Invalid base string '' @ [CHR 0x27] @ ''bad-string'' @ [CHR 0x27]
                         @ ''. Format should be '' @ [CHR 0x27] @ ''<distribution>@<series>''
                         @ [CHR 0x27]))
   \<and> from_str ''a@b@c'' =
        Inl (ValueError (''Invalid base string '' @ [CHR 0x27] @ ''a@b@c'' @ [CHR 0x27]
                         @ ''. Format should be '' @ [CHR 0x27] @ ''<distribution>@<series>''
                         @ [CHR 0x27]))"
proof -
  have ok: "\<exists>b. from_str s = Inr b \<and> s = distribution b @ ''@'' @ series b
        \<and> CHR ''@'' \<notin> set (distribution b) \<and> CHR ''@'' \<notin> set (series b)"
    if one: "count_list s CHR ''@'' = 1"
  proof -
    obtain x y where "partition_on CHR ''@'' s = (x, ''@'', y)" "s = x @ CHR ''@'' # y"
      "CHR ''@'' \<notin> set x" "CHR ''@'' \<notin> set y"
      using partition_on_count_one [OF one] by blast
    then show ?thesis
      using one by (simp add: from_str_def)
  qed
  have bad: "from_str s =
          Inl (ValueError (''Invalid base string '' @ py_repr s @ ''. Format should be ''
                           @ [CHR 0x27] @ ''<distribution>@<series>'' @ [CHR 0x27]))"
    if "count_list s CHR ''@'' \<noteq> 1"
    using that by (simp add: from_str_def)
  have iff: "(\<exists>b. from_str s = Inr b) \<longleftrightarrow> count_list s CHR ''@'' = 1"
    using ok bad by (cases "count_list s CHR ''@'' = 1") auto
  have parts: "s = distribution b @ ''@'' @ series b
        \<and> CHR ''@'' \<notin> set (distribution b) \<and> CHR ''@'' \<notin> set (series b)"
    if r: "from_str s = Inr b"
  proof -
    have "count_list s CHR ''@'' = 1"
      using iff r by blast
    then show ?thesis
      using ok r by auto
  qed
  have build: "from_str (d @ ''@'' @ v) = Inr \<lparr>distribution = d, series = v\<rparr>"
    if "CHR ''@'' \<notin> set d" "CHR ''@'' \<notin> set v"
    using that count_list_split [of "CHR ''@''" d v] partition_on_append [of "CHR ''@''" d v]
    by (simp add: from_str_def)
  have ex1: "from_str ''ubuntu@24.04'' = Inr \<lparr>distribution = ''ubuntu'', series = ''24.04''\<rparr>"
    by (simp add: from_str_def)
  have ex2: "from_str ''bad-string'' =
        Inl (ValueError (''Invalid base string '' @ [CHR 0x27] @ ''bad-string'' @ [CHR 0x27]
                         @ ''. Format should be '' @ [CHR 0x27] @ ''<distribution>@<series>''
                         @ [CHR 0x27]))"
    by (simp add: from_str_def py_repr_def repr_char_def printable_def Let_def)
  have ex3: "from_str ''a@b@c'' =
        Inl (ValueError (''Invalid base string '' @ [CHR 0x27] @ ''a@b@c'' @ [CHR 0x27]
                         @ ''. Format should be '' @ [CHR 0x27] @ ''<distribution>@<series>''
                         @ [CHR 0x27]))"
    by (simp add: from_str_def py_repr_def repr_char_def printable_def Let_def)
  have quoted: "py_repr s = [CHR 0x27] @ s @ [CHR 0x27]"
    if "list_all (\<lambda>c. printable c \<and> c \<noteq> CHR 0x27 \<and> c \<noteq> CHR 0x5C) s"
    using py_repr_plain [OF that] by simp
  show ?thesis
    using iff parts build bad quoted ex1 ex2 ex3 by blast
qed

theorem C4_from_str_witness:
  "from_str (''Alma Linux '' @ ''@'' @ '' 9.4'') =
     Inr \<lparr>distribution = ''Alma Linux '', series = '' 9.4''\<rparr>
   \<and> from_str ''debian@12'' = Inr \<lparr>distribution = ''debian'', series = ''12''\<rparr>
   \<and> count_list ''debian@12'' CHR ''@'' = 1
   \<and> CHR ''@'' \<notin> set ''debian'' \<and> CHR ''@'' \<notin> set ''12''
   \<and> from_str ''debian'' =
       Inl (ValueError (''Invalid base string '' @ py_repr ''debian'' @ ''. Format should be ''
                        @ [CHR 0x27] @ ''<distribution>@<series>'' @ [CHR 0x27]))
   \<and> py_repr ''debian'' = [CHR 0x27] @ ''debian'' @ [CHR 0x27]"
proof -
  have a: "CHR ''@'' \<notin> set ''Alma Linux '' \<and> CHR ''@'' \<notin> set '' 9.4''"
    by simp
  have b: "from_str ''debian@12'' = Inr \<lparr>distribution = ''debian'', series = ''12''\<rparr>"
    by (simp add: from_str_def)
  have c: "count_list ''debian'' CHR ''@'' \<noteq> 1"
    by simp
  have d: "list_all (\<lambda>c. printable c \<and> c \<noteq> CHR 0x27 \<and> c \<noteq> CHR 0x5C) ''debian''"
    by (simp add: printable_def)
  have first: "count_list ''debian@12'' CHR ''@'' = 1
      \<and> CHR ''@'' \<notin> set ''debian'' \<and> CHR ''@'' \<notin> set ''12''
      \<and> from_str (''Alma Linux '' @ ''@'' @ '' 9.4'') =
          Inr \<lparr>distribution = ''Alma Linux '', series = '' 9.4''\<rparr>"
    using a b
      C4_from_str [of "''debian@12''" "\<lparr>distribution = ''debian'', series = ''12''\<rparr>"
        "''Alma Linux ''" "'' 9.4''"]
    by simp
  have second: "from_str ''debian'' =
       Inl (ValueError (''Invalid base string '' @ py_repr ''debian'' @ ''. Format should be ''
                        @ [CHR 0x27] @ ''<distribution>@<series>'' @ [CHR 0x27]))
     \<and> py_repr ''debian'' = [CHR 0x27] @ ''debian'' @ [CHR 0x27]"
    using c d C4_from_str [of "''debian''" undefined "''Alma Linux ''" "'' 9.4''"]
    by blast
  show ?thesis
    using first second b by blast
qed

text \<open>
  C5: \<open>b == b\<close> is true; \<^verbatim>\<open>__eq__\<close> against a base is true exactly when both fields
  are the same strings (so a change of case makes them differ), against a named shape
  exactly when the distribution is its name and the series its version, against a pair
  exactly when the distribution is its first and the series its second element;
  against any other object it answers \<^verbatim>\<open>NotImplemented\<close>, and \<open>==\<close> is then what the
  other object answers, or false when that object answers \<^verbatim>\<open>NotImplemented\<close> too.
\<close>

theorem C5_equality:
  "operator_eq b (Like (Base b)) = Inr True
   \<and> DistroBase_eq b (Like (Base c)) =
       Inr (Bool (distribution b = distribution c \<and> series b = series c))
   \<and> (operator_eq b (Like (Base c)) = Inr True) = (b = c)
   \<and> DistroBase_eq b (Like (BaseName n v)) = Inr (Bool (distribution b = n \<and> series b = v))
   \<and> DistroBase_eq b (Like (Tuple [x, y])) = Inr (Bool (distribution b = x \<and> series b = y))
   \<and> DistroBase_eq b (Other r) = Inr NotImplemented
   \<and> operator_eq b (Other r) = Inr (case r of None \<Rightarrow> False | Some a \<Rightarrow> a)
   \<and> operator_eq \<lparr>distribution = ''ubuntu'', series = ''24.04''\<rparr>
        (Like (Base \<lparr>distribution = ''Ubuntu'', series = ''24.04''\<rparr>)) = Inr False"
proof -
  have fields: "(distribution b = distribution c \<and> series b = series c) = (b = c)"
    by auto
  have other: "operator_eq b (Other r) = Inr (case r of None \<Rightarrow> False | Some a \<Rightarrow> a)"
    by (cases r) (simp_all add: operator_eq_def DistroBase_eq_def)
  show ?thesis
    using fields other by (simp add: operator_eq_def DistroBase_eq_def index_def)
qed

text \<open>
  C6, as the code has it: \<^verbatim>\<open>from_str\<close> raises nothing but its format error.  An
  ordering operator whose operand has a distribution and a version (a base, a named
  shape, a tuple of two or more elements) raises the incompatible-distributions error
  when the distributions differ; otherwise it raises \<^verbatim>\<open>TypeError\<close> when the first
  unequal elements of the two version tuples are an integer and a string, and returns
  a boolean in every other case: "10" against "buster" raises, "buster" against
  "bookworm" and "1.a" against "1.b" do not.  \<^verbatim>\<open>__eq__\<close> returns a boolean against a
  base, a named shape and a tuple of two or more elements.
\<close>

theorem C6_failure_modes:
  "(from_str s = Inl e \<longrightarrow>
      e = ValueError (''Invalid base string '' @ py_repr s @ ''. Format should be ''
                      @ [CHR 0x27] @ ''<distribution>@<series>'' @ [CHR 0x27]))
   \<and> (other_distro other = Inr od \<and> get_version other = Inr v \<longrightarrow>
        (if distribution self \<noteq> od then
           ordering rel self other =
             Inl (ValueError (''Different distributions ('' @ distribution self @ '' and '' @ od
                              @ '') do not have comparable versions.''))
         else if mixed_at_difference (get_version_tuple (series self)) (get_version_tuple v) then
           ordering rel self other = Inl TypeError
         else (\<exists>r. ordering rel self other = Inr r)))
   \<and> (\<exists>r. DistroBase_eq self (Like (Base b)) = Inr (Bool r))
   \<and> (\<exists>r. DistroBase_eq self (Like (BaseName n w)) = Inr (Bool r))
   \<and> (\<exists>r. DistroBase_eq self (Like (Tuple (x # y # rest))) = Inr (Bool r))
   \<and> ordering rel \<lparr>distribution = d, series = ''10''\<rparr>
         (Base \<lparr>distribution = d, series = ''buster''\<rparr>) = Inl TypeError
   \<and> DistroBase_lt \<lparr>distribution = d, series = ''buster''\<rparr>
         (Base \<lparr>distribution = d, series = ''bookworm''\<rparr>) = Inr False
   \<and> DistroBase_lt \<lparr>distribution = d, series = ''1.a''\<rparr>
         (Base \<lparr>distribution = d, series = ''1.b''\<rparr>) = Inr True"
proof -
  have parse: "e = ValueError (''Invalid base string '' @ py_repr s @ ''. Format should be ''
                      @ [CHR 0x27] @ ''<distribution>@<series>'' @ [CHR 0x27])"
    if "from_str s = Inl e"
    using that by (auto simp: from_str_def split: if_splits prod.splits)
  have order: "if distribution self \<noteq> od then
           ordering rel self other =
             Inl (ValueError (''Different distributions ('' @ distribution self @ '' and '' @ od
                              @ '') do not have comparable versions.''))
         else if mixed_at_difference (get_version_tuple (series self)) (get_version_tuple v) then
           ordering rel self other = Inl TypeError
         else (\<exists>r. ordering rel self other = Inr r)"
    if o: "other_distro other = Inr od" and g: "get_version other = Inr v"
  proof (cases "distribution self = od")
    case False
    then show ?thesis
      using ensure_bases_comparable_differ [OF o] by (simp add: ordering_eq)
  next
    case True
    then have "ordering rel self other =
        tuple_cmp rel (get_version_tuple (series self)) (get_version_tuple v)"
      using o g by (simp add: ordering_eq ensure_bases_comparable_def)
    then show ?thesis
      using True tuple_cmp_mixed [of rel "get_version_tuple (series self)" "get_version_tuple v"]
      by auto
  qed
  have eqs: "\<exists>r. DistroBase_eq self (Like (Base b)) = Inr (Bool r)"
    "\<exists>r. DistroBase_eq self (Like (BaseName n w)) = Inr (Bool r)"
    "\<exists>r. DistroBase_eq self (Like (Tuple (x # y # rest))) = Inr (Bool r)"
    by (simp_all add: DistroBase_eq_Tuple) (simp_all add: DistroBase_eq_def)
  have t: "get_version_tuple ''10'' = [IntTok 10]"
    "get_version_tuple ''buster'' = [StrTok ''buster'']"
    "get_version_tuple ''bookworm'' = [StrTok ''bookworm'']"
    "get_version_tuple ''1.a'' = [IntTok 1, StrTok ''a'']"
    "get_version_tuple ''1.b'' = [IntTok 1, StrTok ''b'']"
    by (simp_all add: get_version_tuple_map py_int_def py_literal_def int_max_str_digits_def rstrip_def
        int_space_def is_digit_def digit_val_def Let_def)
  have ex1: "ordering rel \<lparr>distribution = d, series = ''10''\<rparr>
         (Base \<lparr>distribution = d, series = ''buster''\<rparr>) = Inl TypeError"
    by (simp add: t ordering_eq ensure_bases_comparable_def other_distro_def get_version_def)
  have ex2: "DistroBase_lt \<lparr>distribution = d, series = ''buster''\<rparr>
         (Base \<lparr>distribution = d, series = ''bookworm''\<rparr>) = Inr False"
    "DistroBase_lt \<lparr>distribution = d, series = ''1.a''\<rparr>
         (Base \<lparr>distribution = d, series = ''1.b''\<rparr>) = Inr True"
    by (simp_all add: t DistroBase_lt_def ensure_bases_comparable_def other_distro_def
        get_version_def)
  show ?thesis
    using parse order eqs ex1 ex2 by blast
qed

theorem C6_failure_modes_witness:
  "from_str ''a@b@c'' = Inl (ValueError (''Invalid base string '' @ py_repr ''a@b@c''
       @ ''. Format should be '' @ [CHR 0x27] @ ''<distribution>@<series>'' @ [CHR 0x27]))
   \<and> ordering Gt \<lparr>distribution = ''debian'', series = ''10''\<rparr> (Tuple [''debian'', ''sid'']) =
       Inl TypeError
   \<and> (\<exists>r. ordering Gt \<lparr>distribution = ''debian'', series = ''10''\<rparr>
         (BaseName ''debian'' ''9.sid'') = Inr r)"
proof -
  obtain e where e: "from_str ''a@b@c'' = Inl e"
    by (simp add: from_str_def)
  have t: "get_version_tuple ''10'' = [IntTok 10]"
    "get_version_tuple ''sid'' = [StrTok ''sid'']"
    "get_version_tuple ''9.sid'' = [IntTok 9, StrTok ''sid'']"
    by (simp_all add: get_version_tuple_map py_int_def py_literal_def int_max_str_digits_def rstrip_def
        int_space_def is_digit_def digit_val_def Let_def)
  have o1: "other_distro (Tuple [''debian'', ''sid'']) = Inr ''debian''
      \<and> get_version (Tuple [''debian'', ''sid'']) = Inr ''sid''"
    by (simp add: other_distro_def get_version_def index_def)
  have o2: "other_distro (BaseName ''debian'' ''9.sid'') = Inr ''debian''
      \<and> get_version (BaseName ''debian'' ''9.sid'') = Inr ''9.sid''"
    by (simp add: other_distro_def get_version_def)
  have first: "ordering Gt \<lparr>distribution = ''debian'', series = ''10''\<rparr>
      (Tuple [''debian'', ''sid'']) = Inl TypeError"
    using o1 t
      C6_failure_modes [of "''a@b@c''" e "Tuple [''debian'', ''sid'']" "''debian''" "''sid''"
        "\<lparr>distribution = ''debian'', series = ''10''\<rparr>" Gt]
    by simp
  have second: "from_str ''a@b@c'' = Inl (ValueError (''Invalid base string '' @ py_repr ''a@b@c''
       @ ''. Format should be '' @ [CHR 0x27] @ ''<distribution>@<series>'' @ [CHR 0x27]))
   \<and> (\<exists>r. ordering Gt \<lparr>distribution = ''debian'', series = ''10''\<rparr>
         (BaseName ''debian'' ''9.sid'') = Inr r)"
    using o2 t e
      C6_failure_modes [of "''a@b@c''" e "BaseName ''debian'' ''9.sid''" "''debian''" "''9.sid''"
        "\<lparr>distribution = ''debian'', series = ''10''\<rparr>" Gt]
    by simp
  show ?thesis
    using first second by blast
qed

text \<open>
  C6 as stated fails: for the bases of "debian" with the series "10" and "buster" the
  operator \<open><\<close> raises \<^verbatim>\<open>TypeError\<close>, the integer 10 meeting the string "buster", and
  \<^verbatim>\<open>__eq__\<close> against the empty tuple raises \<^verbatim>\<open>IndexError\<close>.
\<close>

theorem C6_counterexample:
  "DistroBase_lt \<lparr>distribution = ''debian'', series = ''10''\<rparr>
       (Base \<lparr>distribution = ''debian'', series = ''buster''\<rparr>) = Inl TypeError
   \<and> DistroBase_eq \<lparr>distribution = ''debian'', series = ''10''\<rparr> (Like (Tuple [])) =
       Inl IndexError"
proof -
  have t: "get_version_tuple ''10'' = [IntTok 10]"
    "get_version_tuple ''buster'' = [StrTok ''buster'']"
    by (simp_all add: get_version_tuple_map py_int_def py_literal_def int_max_str_digits_def rstrip_def
        int_space_def is_digit_def digit_val_def Let_def)
  show ?thesis
    by (simp add: t DistroBase_lt_def ensure_bases_comparable_def other_distro_def
        get_version_def DistroBase_eq_def index_def)
qed

text \<open>
  C7: \<^verbatim>\<open>is_ubuntu_like\<close> is true exactly when the id of the descriptor is "ubuntu" or
  "ubuntu" is a white-space-separated token of its "like" field; without an argument
  the descriptor of the host is the one looked at.  It is false for the id "centos"
  with "rhel fedora", true for the id "ubuntu", true for "linuxmint" with
  "ubuntu debian", false for "debian" with an empty "like" field.
\<close>

theorem C7_is_ubuntu_like:
  "is_ubuntu_like host (Some d) = (id' d = ''ubuntu'' \<or> ws_token ''ubuntu'' (like d))
   \<and> is_ubuntu_like host None = (id' host = ''ubuntu'' \<or> ws_token ''ubuntu'' (like host))
   \<and> is_ubuntu_like host (Some d) = (id' d = ''ubuntu'' \<or> ''ubuntu'' \<in> set (split_ws (like d)))
   \<and> \<not> is_ubuntu_like host (Some \<lparr>id' = ''centos'', like = ''rhel fedora'', version = v\<rparr>)
   \<and> is_ubuntu_like host (Some \<lparr>id' = ''ubuntu'', like = l, version = v\<rparr>)
   \<and> is_ubuntu_like host (Some \<lparr>id' = ''linuxmint'', like = ''ubuntu debian'', version = v\<rparr>)
   \<and> \<not> is_ubuntu_like host (Some \<lparr>id' = ''debian'', like = [], version = v\<rparr>)"
proof -
  have given: "is_ubuntu_like host (Some d) = (id' d = ''ubuntu'' \<or> ''ubuntu'' \<in> set (split_ws (like d)))"
    for d
    by (simp add: is_ubuntu_like_def Let_def)
  have none: "is_ubuntu_like host None = is_ubuntu_like host (Some host)"
    by (simp add: is_ubuntu_like_def)
  have centos: "split_ws ''rhel fedora'' = [''rhel'', ''fedora'']"
    by (simp add: split_ws.simps is_space_def)
  have mint: "split_ws ''ubuntu debian'' = [''ubuntu'', ''debian'']"
    by (simp add: split_ws.simps is_space_def)
  have debian: "split_ws [] = []"
    by (simp add: split_ws.simps)
  show ?thesis
    unfolding none given split_ws_tokens [symmetric]
    by (simp add: centos mint debian)
qed

text \<open>
  C8, as the code has it: for two bases of one distribution whose series consist of
  digits and dots, no piece longer than the 4300 digits \<^verbatim>\<open>int\<close> accepts, the numbers
  of the first coming before the numbers of the second, \<open>A < B\<close>, \<open>A <= B\<close>, \<open>B > A\<close>,
  \<open>B >= A\<close> and \<open>A != B\<close> are all true.  So the base of "ubuntu" and "4.10" is smaller
  than the base of every series of the tests, from "6.06" to "24.10", although as
  strings "24.10" comes before "4.10" and "10" before "9".
\<close>

theorem C8_numeric_order:
  "(numeric_series a \<and> numeric_series b \<and> within_digit_limit a \<and> within_digit_limit b
      \<and> numbers_lt (series_numbers a) (series_numbers b) \<longrightarrow>
      DistroBase_lt \<lparr>distribution = d, series = a\<rparr> (Base \<lparr>distribution = d, series = b\<rparr>) = Inr True
      \<and> DistroBase_le \<lparr>distribution = d, series = a\<rparr> (Base \<lparr>distribution = d, series = b\<rparr>) = Inr True
      \<and> DistroBase_gt \<lparr>distribution = d, series = b\<rparr> (Base \<lparr>distribution = d, series = a\<rparr>) = Inr True
      \<and> DistroBase_ge \<lparr>distribution = d, series = b\<rparr> (Base \<lparr>distribution = d, series = a\<rparr>) = Inr True
      \<and> operator_ne \<lparr>distribution = d, series = a\<rparr> (Like (Base \<lparr>distribution = d, series = b\<rparr>)) = Inr True
      \<and> operator_ne \<lparr>distribution = d, series = b\<rparr> (Like (Base \<lparr>distribution = d, series = a\<rparr>)) = Inr True)
   \<and> list_all
        (\<lambda>s. numeric_series s \<and> within_digit_limit s
           \<and> numbers_lt (series_numbers ''4.10'') (series_numbers s)
           \<and> DistroBase_lt \<lparr>distribution = ''ubuntu'', series = ''4.10''\<rparr>
                (Base \<lparr>distribution = ''ubuntu'', series = s\<rparr>) = Inr True
           \<and> DistroBase_le \<lparr>distribution = ''ubuntu'', series = ''4.10''\<rparr>
                (Base \<lparr>distribution = ''ubuntu'', series = s\<rparr>) = Inr True
           \<and> DistroBase_gt \<lparr>distribution = ''ubuntu'', series = s\<rparr>
                (Base \<lparr>distribution = ''ubuntu'', series = ''4.10''\<rparr>) = Inr True
           \<and> DistroBase_ge \<lparr>distribution = ''ubuntu'', series = s\<rparr>
                (Base \<lparr>distribution = ''ubuntu'', series = ''4.10''\<rparr>) = Inr True)
        ALL_UBUNTU
   \<and> numeric_series ''4.10'' \<and> within_digit_limit ''4.10''
   \<and> str_lt ''24.10'' ''4.10''
   \<and> str_lt ''10'' ''9''
   \<and> DistroBase_lt \<lparr>distribution = d, series = ''9''\<rparr> (Base \<lparr>distribution = d, series = ''10''\<rparr>) = Inr True"
proof -
  have gen: "DistroBase_lt \<lparr>distribution = d, series = a\<rparr> (Base \<lparr>distribution = d, series = b\<rparr>) = Inr True
      \<and> DistroBase_le \<lparr>distribution = d, series = a\<rparr> (Base \<lparr>distribution = d, series = b\<rparr>) = Inr True
      \<and> DistroBase_gt \<lparr>distribution = d, series = b\<rparr> (Base \<lparr>distribution = d, series = a\<rparr>) = Inr True
      \<and> DistroBase_ge \<lparr>distribution = d, series = b\<rparr> (Base \<lparr>distribution = d, series = a\<rparr>) = Inr True
      \<and> operator_ne \<lparr>distribution = d, series = a\<rparr> (Like (Base \<lparr>distribution = d, series = b\<rparr>)) = Inr True
      \<and> operator_ne \<lparr>distribution = d, series = b\<rparr> (Like (Base \<lparr>distribution = d, series = a\<rparr>)) = Inr True"
    if na: "numeric_series a" and nb: "numeric_series b"
      and wa: "within_digit_limit a" and wb: "within_digit_limit b"
      and lt: "numbers_lt (series_numbers a) (series_numbers b)"
    for a b d
  proof -
    have ne: "a \<noteq> b"
      using lt numbers_lt_irrefl by auto
    show ?thesis
      using tuple_cmp_numbers [OF lt] ne
      by (simp add: ordering_defs ensure_bases_comparable_def other_distro_def get_version_def
          get_version_tuple_numeric [OF na wa] get_version_tuple_numeric [OF nb wb]
          operator_ne_def DistroBase_eq_def)
  qed
  have warty: "numeric_series ''4.10''" "within_digit_limit ''4.10''"
    by (simp_all add: numeric_series_def within_digit_limit_def int_max_str_digits_def
        is_digit_def Let_def)
  have known: "list_all
      (\<lambda>s. numeric_series s \<and> within_digit_limit s
         \<and> numbers_lt (series_numbers ''4.10'') (series_numbers s))
      ALL_UBUNTU"
    by (simp add: ALL_UBUNTU_def numeric_series_def within_digit_limit_def
        int_max_str_digits_def series_numbers_def digits_value_def
        is_digit_def digit_val_def Let_def)
  have tests: "list_all
        (\<lambda>s. numeric_series s \<and> within_digit_limit s
           \<and> numbers_lt (series_numbers ''4.10'') (series_numbers s)
           \<and> DistroBase_lt \<lparr>distribution = ''ubuntu'', series = ''4.10''\<rparr>
                (Base \<lparr>distribution = ''ubuntu'', series = s\<rparr>) = Inr True
           \<and> DistroBase_le \<lparr>distribution = ''ubuntu'', series = ''4.10''\<rparr>
                (Base \<lparr>distribution = ''ubuntu'', series = s\<rparr>) = Inr True
           \<and> DistroBase_gt \<lparr>distribution = ''ubuntu'', series = s\<rparr>
                (Base \<lparr>distribution = ''ubuntu'', series = ''4.10''\<rparr>) = Inr True
           \<and> DistroBase_ge \<lparr>distribution = ''ubuntu'', series = s\<rparr>
                (Base \<lparr>distribution = ''ubuntu'', series = ''4.10''\<rparr>) = Inr True)
        ALL_UBUNTU"
    unfolding list_all_iff
  proof
    fix s
    assume "s \<in> set ALL_UBUNTU"
    then have s: "numeric_series s" "within_digit_limit s"
      "numbers_lt (series_numbers ''4.10'') (series_numbers s)"
      using known by (auto simp: list_all_iff)
    show "numeric_series s \<and> within_digit_limit s
           \<and> numbers_lt (series_numbers ''4.10'') (series_numbers s)
           \<and> DistroBase_lt \<lparr>distribution = ''ubuntu'', series = ''4.10''\<rparr>
                (Base \<lparr>distribution = ''ubuntu'', series = s\<rparr>) = Inr True
           \<and> DistroBase_le \<lparr>distribution = ''ubuntu'', series = ''4.10''\<rparr>
                (Base \<lparr>distribution = ''ubuntu'', series = s\<rparr>) = Inr True
           \<and> DistroBase_gt \<lparr>distribution = ''ubuntu'', series = s\<rparr>
                (Base \<lparr>distribution = ''ubuntu'', series = ''4.10''\<rparr>) = Inr True
           \<and> DistroBase_ge \<lparr>distribution = ''ubuntu'', series = s\<rparr>
                (Base \<lparr>distribution = ''ubuntu'', series = ''4.10''\<rparr>) = Inr True"
      using s gen [OF warty(1) s(1) warty(2) s(2) s(3), of "''ubuntu''"] by simp
  qed
  have lexical: "str_lt ''24.10'' ''4.10''" "str_lt ''10'' ''9''"
    by simp_all
  have nine: "DistroBase_lt \<lparr>distribution = d, series = ''9''\<rparr>
      (Base \<lparr>distribution = d, series = ''10''\<rparr>) = Inr True"
  proof -
    have "numeric_series ''9''" "numeric_series ''10''"
      "within_digit_limit ''9''" "within_digit_limit ''10''"
      "numbers_lt (series_numbers ''9'') (series_numbers ''10'')"
      by (simp_all add: numeric_series_def within_digit_limit_def int_max_str_digits_def
          series_numbers_def digits_value_def is_digit_def digit_val_def Let_def)
    then show ?thesis
      using gen [of "''9''" "''10''" d] by simp
  qed
  show ?thesis
    using gen [of a b d] warty tests lexical nine by blast
qed

theorem C8_numeric_order_witness:
  "numeric_series ''18.04'' \<and> numeric_series ''24.04''
   \<and> within_digit_limit ''18.04'' \<and> within_digit_limit ''24.04''
   \<and> numbers_lt (series_numbers ''18.04'') (series_numbers ''24.04'')
   \<and> DistroBase_lt \<lparr>distribution = ''ubuntu'', series = ''18.04''\<rparr>
        (Base \<lparr>distribution = ''ubuntu'', series = ''24.04''\<rparr>) = Inr True
   \<and> DistroBase_ge \<lparr>distribution = ''ubuntu'', series = ''24.04''\<rparr>
        (Base \<lparr>distribution = ''ubuntu'', series = ''18.04''\<rparr>) = Inr True
   \<and> operator_ne \<lparr>distribution = ''ubuntu'', series = ''18.04''\<rparr>
        (Like (Base \<lparr>distribution = ''ubuntu'', series = ''24.04''\<rparr>)) = Inr True"
proof -
  have h: "numeric_series ''18.04'' \<and> numeric_series ''24.04''
      \<and> within_digit_limit ''18.04'' \<and> within_digit_limit ''24.04''
      \<and> numbers_lt (series_numbers ''18.04'') (series_numbers ''24.04'')"
    by (simp add: numeric_series_def within_digit_limit_def int_max_str_digits_def
        series_numbers_def digits_value_def is_digit_def digit_val_def Let_def)
  show ?thesis
    using h C8_numeric_order [of "''18.04''" "''24.04''" "''ubuntu''"] by blast
qed

text \<open>
  C8 as stated fails: the series of 4300 zeros followed by "9" and of 4300 zeros
  followed by "10" consist of digits only and denote 9 and 10, but each is longer than
  \<^verbatim>\<open>int\<close> accepts, so both stay strings, and as strings the first does not come
  before the second: \<open><\<close> is false.
\<close>

theorem C8_counterexample:
  "numeric_series (replicate 4300 CHR ''0'' @ ''9'')
   \<and> numeric_series (replicate 4300 CHR ''0'' @ ''10'')
   \<and> series_numbers (replicate 4300 CHR ''0'' @ ''9'') = [9]
   \<and> series_numbers (replicate 4300 CHR ''0'' @ ''10'') = [10]
   \<and> numbers_lt (series_numbers (replicate 4300 CHR ''0'' @ ''9''))
        (series_numbers (replicate 4300 CHR ''0'' @ ''10''))
   \<and> get_version_tuple (replicate 4300 CHR ''0'' @ ''9'') =
        [StrTok (replicate 4300 CHR ''0'' @ ''9'')]
   \<and> DistroBase_lt \<lparr>distribution = ''ubuntu'', series = replicate 4300 CHR ''0'' @ ''9''\<rparr>
        (Base \<lparr>distribution = ''ubuntu'', series = replicate 4300 CHR ''0'' @ ''10''\<rparr>) =
      Inr False"
proof -
  define z where "z = replicate 4300 CHR ''0''"
  have zd: "list_all is_digit z"
    by (simp add: z_def list_all_iff is_digit_def)
  have zl: "length z = 4300"
    by (simp add: z_def)
  have nodot: "CHR ''.'' \<notin> set (z @ ''9'')" "CHR ''.'' \<notin> set (z @ ''10'')"
    by (simp_all add: z_def)
  have sp: "split_on CHR ''.'' (z @ ''9'') = [z @ ''9'']"
    "split_on CHR ''.'' (z @ ''10'') = [z @ ''10'']"
    by (simp_all only: split_on_without_sep [OF nodot(1)] split_on_without_sep [OF nodot(2)])
  have d9: "list_all is_digit (z @ ''9'')" and d10: "list_all is_digit (z @ ''10'')"
    using zd by (simp_all add: is_digit_def)
  have num: "numeric_series (z @ ''9'')" "numeric_series (z @ ''10'')"
    using d9 d10 by (simp_all add: numeric_series_def sp)
  have val: "series_numbers (z @ ''9'') = [9]" "series_numbers (z @ ''10'') = [10]"
  proof -
    have dz: "digits_value (z @ t) = digits_value t" for t
      unfolding z_def by (rule digits_value_zeros)
    show "series_numbers (z @ ''9'') = [9]" "series_numbers (z @ ''10'') = [10]"
      by (simp_all add: series_numbers_def sp dz) (simp_all add: digits_value_def digit_val_def)
  qed
  have long: "py_int (z @ ''9'') = None" "py_int (z @ ''10'') = None"
    using d9 d10 zl by (simp_all add: py_int_long int_max_str_digits_def)
  have tup: "get_version_tuple (z @ ''9'') = [StrTok (z @ ''9'')]"
    "get_version_tuple (z @ ''10'') = [StrTok (z @ ''10'')]"
    by (simp_all add: get_version_tuple_map sp long)
  have ne: "z @ ''9'' \<noteq> z @ ''10''"
    by simp
  have "str_lt (z @ ''9'') (z @ ''10'') = False"
    by (simp add: str_lt_append)
  then have lt: "DistroBase_lt \<lparr>distribution = ''ubuntu'', series = z @ ''9''\<rparr>
        (Base \<lparr>distribution = ''ubuntu'', series = z @ ''10''\<rparr>) = Inr False"
    using ne by (simp add: DistroBase_lt_def ensure_bases_comparable_def other_distro_def
        get_version_def tup)
  show ?thesis
    using num val tup(1) lt unfolding z_def by simp
qed

text \<open>
  C9: \<^verbatim>\<open>__eq__\<close> against a tuple of two or more elements reads the first two only: it
  is true exactly when they are the distribution and the series, whatever follows.
\<close>

theorem C9_equality_reads_two_elements:
  "DistroBase_eq b (Like (Tuple (x # y # rest))) =
     Inr (Bool (distribution b = x \<and> series b = y))
   \<and> operator_eq b (Like (Tuple (distribution b # series b # rest))) = Inr True"
  by (simp add: operator_eq_def DistroBase_eq_Tuple)

text \<open>
  C10: the series "20.04" and "20.4" have the same version tuple, (20, 4), so for two
  bases of one distribution with these series \<open><=\<close> is true in both directions while
  \<open>==\<close> is false.
\<close>

theorem C10_le_not_antisymmetric:
  "DistroBase_le \<lparr>distribution = d, series = ''20.04''\<rparr>
       (Base \<lparr>distribution = d, series = ''20.4''\<rparr>) = Inr True
   \<and> DistroBase_le \<lparr>distribution = d, series = ''20.4''\<rparr>
       (Base \<lparr>distribution = d, series = ''20.04''\<rparr>) = Inr True
   \<and> operator_eq \<lparr>distribution = d, series = ''20.04''\<rparr>
       (Like (Base \<lparr>distribution = d, series = ''20.4''\<rparr>)) = Inr False
   \<and> get_version_tuple ''20.04'' = [IntTok 20, IntTok 4]
   \<and> get_version_tuple ''20.4'' = [IntTok 20, IntTok 4]"
proof -
  have t: "get_version_tuple ''20.04'' = [IntTok 20, IntTok 4]"
    "get_version_tuple ''20.4'' = [IntTok 20, IntTok 4]"
    by (simp_all add: get_version_tuple_map py_int_def py_literal_def int_max_str_digits_def rstrip_def
        int_space_def is_digit_def digit_val_def Let_def)
  show ?thesis
    by (simp add: t DistroBase_le_def ensure_bases_comparable_def other_distro_def
        get_version_def operator_eq_def DistroBase_eq_def)
qed

end
